theory Spec2Isabelle
  imports Complex_Main "HOL-Library.Word" "HOL-Library.Sublist"
begin

section \<open>Data model of \<^verbatim>\<open>src/lib/writer.ts\<close>\<close>

text \<open>
  Bytes are 8-bit words (the elements of a \<^verbatim>\<open>Uint8Array\<close>). A path is the list of its
  components. The file system maps a path to a regular file with its content or to a
  directory; what lies in a directory is found at the paths that extend its path.
\<close>

type_synonym byte = "8 word"
type_synonym bytes = "byte list"
type_synonym path = "string list"

datatype node = File bytes | Dir

type_synonym filesystem = "path \<rightharpoonup> node"

text \<open>
  What the platform calls and the source itself raise. \<open>Error msg\<close> is the JavaScript
  \<^verbatim>\<open>Error\<close> object with that message.
\<close>

datatype error = NotFound | IsADirectory | NotADirectory | Error string

text \<open>
  \<^verbatim>\<open>hash.Sha256\<close> comes from \<^verbatim>\<open>deps.ts\<close>. An accumulator is modelled by the bytes fed
  to it so far; \<^verbatim>\<open>hex()\<close> is a function \<open>hex\<close> of those bytes, a parameter of every
  operation that compares digests.
\<close>

type_synonym Sha256 = bytes

definition Sha256_new :: Sha256 where
  "Sha256_new = []"

definition Sha256_update :: "Sha256 \<Rightarrow> bytes \<Rightarrow> Sha256" where
  "Sha256_update h chunk = h @ chunk"

text \<open>
  \<^verbatim>\<open>interface DirData { path }\<close> and
  \<^verbatim>\<open>interface FileData { path; size; checksum; verifyChecksum }\<close>.
  The field \<^verbatim>\<open>size\<close> is named \<open>size_fd\<close> here.
\<close>

record DirData =
  path :: path

record FileData = DirData +
  size_fd :: nat
  checksum :: Sha256
  verifyChecksum :: bool

text \<open>
  \<^verbatim>\<open>crypto.getRandomValues\<close> draws from a stream of random bytes; the stream that is
  left is returned with the filled buffer.
\<close>

type_synonym rand = "nat \<Rightarrow> byte"

definition crypto_getRandomValues :: "rand \<Rightarrow> bytes \<Rightarrow> bytes \<times> rand" where
  "crypto_getRandomValues rnd p = (map rnd [0..<length p], \<lambda>i. rnd (i + length p))"

text \<open>Storing a number into a \<^verbatim>\<open>Uint8Array\<close> keeps it modulo 256.\<close>

definition ToUint8 :: "int \<Rightarrow> byte" where
  "ToUint8 v = word_of_int v"

definition fill :: "bytes \<Rightarrow> byte \<Rightarrow> bytes" where
  "fill p v = replicate (length p) v"

text \<open>
  \<^verbatim>\<open>byteArray[i % length]\<close>: with an empty array \<^verbatim>\<open>i % 0\<close> is \<^verbatim>\<open>NaN\<close>, the element read is
  \<^verbatim>\<open>undefined\<close>, and the byte stored is 0.
\<close>

definition byteArray_at :: "int list \<Rightarrow> nat \<Rightarrow> byte" where
  "byteArray_at byteArray i =
     (if length byteArray = 0 then 0
      else ToUint8 (byteArray ! (i mod length byteArray)))"

section \<open>The classes and their \<^verbatim>\<open>getValues\<close>\<close>

text \<open>
  The values the static property \<^verbatim>\<open>getValues\<close> takes: the five methods declared in
  the class bodies, and the closures that \<^verbatim>\<open>Byte.write\<close> and \<^verbatim>\<open>ByteArray.write\<close>
  assign, with the argument they capture.
\<close>

datatype getValues_impl =
    FileWriter_getValues
  | Random_getValues
  | RandomByte_getValues
  | Zero_getValues
  | One_getValues
  | Byte_closure int
  | ByteArray_closure "int list"

fun getValues :: "getValues_impl \<Rightarrow> rand \<Rightarrow> bytes \<Rightarrow> bytes \<times> rand" where
  "getValues FileWriter_getValues rnd p = (p, rnd)"
| "getValues Random_getValues rnd p = crypto_getRandomValues rnd p"
| "getValues RandomByte_getValues rnd p =
     (case crypto_getRandomValues rnd [0] of
        (byte, rnd') \<Rightarrow> (fill p (byte ! 0), rnd'))"
| "getValues Zero_getValues rnd p = (fill p (ToUint8 0x000000), rnd)"
| "getValues One_getValues rnd p = (fill p (ToUint8 0xFFFFFF), rnd)"
| "getValues (Byte_closure byte) rnd p = (fill p (ToUint8 byte), rnd)"
| "getValues (ByteArray_closure byteArray) rnd p =
     (map (\<lambda>i. byteArray_at byteArray i) [0..<length p], rnd)"

datatype cls =
    FileWriter_cls | Random_cls | RandomByte_cls | Zero_cls | One_cls
  | Byte_cls | ByteArray_cls

text \<open>
  The mutable static state: the own property \<^verbatim>\<open>getValues\<close> of the classes \<^verbatim>\<open>Byte\<close> and
  \<^verbatim>\<open>ByteArray\<close>, which their \<^verbatim>\<open>write\<close> assigns. \<open>None\<close> is a class that has no own
  property yet and inherits \<^verbatim>\<open>FileWriter.getValues\<close>.
\<close>

record Statics =
  Byte_getValues :: "getValues_impl option"
  ByteArray_getValues :: "getValues_impl option"

fun this_getValues :: "cls \<Rightarrow> Statics \<Rightarrow> getValues_impl" where
  "this_getValues FileWriter_cls s = FileWriter_getValues"
| "this_getValues Random_cls s = Random_getValues"
| "this_getValues RandomByte_cls s = RandomByte_getValues"
| "this_getValues Zero_cls s = Zero_getValues"
| "this_getValues One_cls s = One_getValues"
| "this_getValues Byte_cls s =
     (case Byte_getValues s of None \<Rightarrow> FileWriter_getValues | Some g \<Rightarrow> g)"
| "this_getValues ByteArray_cls s =
     (case ByteArray_getValues s of None \<Rightarrow> FileWriter_getValues | Some g \<Rightarrow> g)"

text \<open>
  Everything outside the target record that the operations read or change. An operation
  is a function of the record and of this state; it returns the new record and state, or
  the error it raises. Every raise that can happen here comes before the first change to the
  record or to the file system, so an error stands for both left as they were; the
  assignment to the static property that \<^verbatim>\<open>Byte.write\<close> and \<^verbatim>\<open>ByteArray.write\<close> make
  before a failing \<^verbatim>\<open>Deno.open\<close> is not kept with the error. Calls of the logger are left
  out, and so are the two timestamp operations, which change neither record nor content.
\<close>

record world =
  statics :: Statics
  crypto :: rand
  fs :: filesystem

section \<open>\<^verbatim>\<open>FileWriter\<close>\<close>

definition FileWriter_init :: "path \<Rightarrow> filesystem \<Rightarrow> error + FileData" where
  "FileWriter_init p fsys =
     (case fsys p of
        None \<Rightarrow> Inl NotFound
      | Some Dir \<Rightarrow> Inl (Error ''The specified path is not a file.'')
      | Some (File content) \<Rightarrow>
          Inr \<lparr>path = p, size_fd = length content, checksum = Sha256_new,
               verifyChecksum = False\<rparr>)"

text \<open>
  The reader \<^verbatim>\<open>src\<close> built in \<^verbatim>\<open>write\<close>. Its state is what the closure reaches: the local
  variable \<^verbatim>\<open>size\<close>, the target record and the random source. \<open>src_read\<close> is the body of
  \<^verbatim>\<open>read(p)\<close>; it returns the resolved value, the buffer and the new state.
\<close>

record reader =
  size_local :: nat
  r_fileData :: FileData
  r_crypto :: rand

definition src_read ::
  "getValues_impl \<Rightarrow> bytes \<Rightarrow> reader \<Rightarrow> nat option \<times> bytes \<times> reader" where
  "src_read g p st =
     (let len = min (length p) (size_local st);
          st1 = st\<lparr>size_local := size_local st - len\<rparr>
      in if len = 0 then (None, p, st1)
         else (case getValues g (r_crypto st1) p of
                 (p', rnd') \<Rightarrow>
                   let fd = r_fileData st1;
                       fd' = (if verifyChecksum fd
                              then fd\<lparr>checksum := Sha256_update (checksum fd) (take len p')\<rparr>
                              else fd)
                   in (Some len, p', st1\<lparr>r_fileData := fd', r_crypto := rnd'\<rparr>)))"

text \<open>
  \<^verbatim>\<open>Deno.copy(src, dest)\<close> is called without options: it allocates one zeroed buffer of
  32 KiB, and until \<^verbatim>\<open>read\<close> resolves to \<^verbatim>\<open>null\<close> it reads into that same buffer and
  writes the first \<open>n\<close> bytes of it to \<open>dest\<close>. \<open>out\<close> is what has been written to
  \<open>dest\<close> so far.
\<close>

definition DEFAULT_BUFFER_SIZE :: nat where
  "DEFAULT_BUFFER_SIZE = 32 * 1024"

function copy_loop ::
  "getValues_impl \<Rightarrow> bytes \<Rightarrow> reader \<Rightarrow> bytes \<Rightarrow> reader \<times> bytes" where
  "copy_loop g b st out =
     (case src_read g b st of
        (None, b', st') \<Rightarrow> (st', out)
      | (Some n, b', st') \<Rightarrow> copy_loop g b' st' (out @ take n b'))"
  by pat_completeness auto
termination
  by (relation "measure (\<lambda>(g, b, st, out). size_local st)")
     (auto simp: src_read_def Let_def split: if_splits prod.splits)

declare copy_loop.simps [simp del]

definition Deno_copy :: "getValues_impl \<Rightarrow> reader \<Rightarrow> reader \<times> bytes" where
  "Deno_copy g st = copy_loop g (replicate DEFAULT_BUFFER_SIZE 0) st []"

text \<open>
  \<^verbatim>\<open>Deno.iter(src)\<close>, also without options, yields the file in chunks of at most 32 KiB.
\<close>

function Deno_iter :: "bytes \<Rightarrow> bytes list" where
  "Deno_iter content =
     (if content = [] then []
      else take DEFAULT_BUFFER_SIZE content # Deno_iter (drop DEFAULT_BUFFER_SIZE content))"
  by pat_completeness auto
termination
  by (relation "measure length") (auto simp: DEFAULT_BUFFER_SIZE_def)

declare Deno_iter.simps [simp del]

text \<open>
  \<^verbatim>\<open>verify\<close> returns \<^verbatim>\<open>undefined\<close> (\<open>None\<close>) or an \<^verbatim>\<open>Error\<close> object (\<open>Some\<close> of its
  message) as its value; it raises what \<^verbatim>\<open>Deno.open\<close> raises. The target record is
  returned with the value, as for every operation on it.
\<close>

definition FileWriter_verify ::
  "(bytes \<Rightarrow> 'd) \<Rightarrow> FileData \<Rightarrow> filesystem \<Rightarrow> error + (string option \<times> FileData)" where
  "FileWriter_verify hex fileData fsys =
     (case fsys (path fileData) of
        None \<Rightarrow> Inl NotFound
      | Some Dir \<Rightarrow> Inl IsADirectory
      | Some (File content) \<Rightarrow>
          let checksum' = foldl Sha256_update Sha256_new (Deno_iter content)
          in if hex (checksum fileData) \<noteq> hex checksum'
             then Inr (Some ''Invalid checksum'', fileData)
             else Inr (None, fileData))"

definition FileWriter_verifyNext :: "FileData \<Rightarrow> FileData" where
  "FileWriter_verifyNext fileData =
     fileData\<lparr>verifyChecksum := True, checksum := Sha256_new\<rparr>"

text \<open>
  \<^verbatim>\<open>FileWriter.write\<close>, with the class it is called on as \<open>this\<close>. The file is opened for
  writing without truncation, so the bytes copied replace the first bytes of the old
  content and the rest of the old content stays. The value of \<^verbatim>\<open>await this.verify\<close> is
  not used by the source; only what \<^verbatim>\<open>verify\<close> raises reaches the caller.
\<close>

definition FileWriter_write ::
  "(bytes \<Rightarrow> 'd) \<Rightarrow> cls \<Rightarrow> FileData \<Rightarrow> world \<Rightarrow> error + (FileData \<times> world)" where
  "FileWriter_write hex this fileData w =
     (case fs w (path fileData) of
        None \<Rightarrow> Inl NotFound
      | Some Dir \<Rightarrow> Inl IsADirectory
      | Some (File old) \<Rightarrow>
          (case Deno_copy (this_getValues this (statics w))
                  \<lparr>size_local = size_fd fileData, r_fileData = fileData,
                   r_crypto = crypto w\<rparr> of
             (st, out) \<Rightarrow>
               let fileData1 = r_fileData st;
                   w1 = w\<lparr>crypto := r_crypto st,
                          fs := (fs w)(path fileData \<mapsto> File (out @ drop (length out) old))\<rparr>
               in if verifyChecksum fileData1
                  then (let fileData2 = fileData1\<lparr>verifyChecksum := False\<rparr>
                        in case FileWriter_verify hex fileData2 (fs w1) of
                             Inl e \<Rightarrow> Inl e
                           | Inr (r, fileData3) \<Rightarrow> Inr (fileData3, w1))
                  else Inr (fileData1, w1)))"

definition Random_write ::
  "(bytes \<Rightarrow> 'd) \<Rightarrow> FileData \<Rightarrow> world \<Rightarrow> error + (FileData \<times> world)" where
  "Random_write hex fileData w = FileWriter_write hex Random_cls fileData w"

definition RandomByte_write ::
  "(bytes \<Rightarrow> 'd) \<Rightarrow> FileData \<Rightarrow> world \<Rightarrow> error + (FileData \<times> world)" where
  "RandomByte_write hex fileData w = FileWriter_write hex RandomByte_cls fileData w"

definition Zero_write ::
  "(bytes \<Rightarrow> 'd) \<Rightarrow> FileData \<Rightarrow> world \<Rightarrow> error + (FileData \<times> world)" where
  "Zero_write hex fileData w = FileWriter_write hex Zero_cls fileData w"

definition One_write ::
  "(bytes \<Rightarrow> 'd) \<Rightarrow> FileData \<Rightarrow> world \<Rightarrow> error + (FileData \<times> world)" where
  "One_write hex fileData w = FileWriter_write hex One_cls fileData w"

definition Byte_write ::
  "(bytes \<Rightarrow> 'd) \<Rightarrow> FileData \<Rightarrow> int \<Rightarrow> world \<Rightarrow> error + (FileData \<times> world)" where
  "Byte_write hex fileData byte w =
     FileWriter_write hex Byte_cls fileData
       (w\<lparr>statics := (statics w)\<lparr>Byte_getValues := Some (Byte_closure byte)\<rparr>\<rparr>)"

definition ByteArray_write ::
  "(bytes \<Rightarrow> 'd) \<Rightarrow> FileData \<Rightarrow> int list \<Rightarrow> world \<Rightarrow> error + (FileData \<times> world)" where
  "ByteArray_write hex fileData byteArray w =
     FileWriter_write hex ByteArray_cls fileData
       (w\<lparr>statics := (statics w)\<lparr>ByteArray_getValues := Some (ByteArray_closure byteArray)\<rparr>\<rparr>)"

text \<open>
  A call of \<^verbatim>\<open>write\<close> on one of the seven classes, with its argument: every way the
  source offers to overwrite a file.
\<close>

datatype invocation =
    FileWriter_call | Random_call | RandomByte_call | Zero_call | One_call
  | Byte_call int | ByteArray_call "int list"

fun invoke ::
  "(bytes \<Rightarrow> 'd) \<Rightarrow> invocation \<Rightarrow> FileData \<Rightarrow> world \<Rightarrow> error + (FileData \<times> world)" where
  "invoke hex FileWriter_call fileData w = FileWriter_write hex FileWriter_cls fileData w"
| "invoke hex Random_call fileData w = Random_write hex fileData w"
| "invoke hex RandomByte_call fileData w = RandomByte_write hex fileData w"
| "invoke hex Zero_call fileData w = Zero_write hex fileData w"
| "invoke hex One_call fileData w = One_write hex fileData w"
| "invoke hex (Byte_call byte) fileData w = Byte_write hex fileData byte w"
| "invoke hex (ByteArray_call byteArray) fileData w = ByteArray_write hex fileData byteArray w"

section \<open>\<^verbatim>\<open>FileProperties\<close>, \<^verbatim>\<open>DirectoryWriter\<close> and \<^verbatim>\<open>DirectoryProperties\<close>\<close>




text \<open>
  \<^verbatim>\<open>Deno.truncate(name, len)\<close> cuts the file to \<open>len\<close> bytes, or extends it with zero
  bytes.
\<close>

definition Deno_truncate :: "path \<Rightarrow> nat \<Rightarrow> filesystem \<Rightarrow> error + filesystem" where
  "Deno_truncate name len fsys =
     (case fsys name of
        None \<Rightarrow> Inl NotFound
      | Some Dir \<Rightarrow> Inl IsADirectory
      | Some (File c) \<Rightarrow>
          Inr (fsys(name \<mapsto> File (take len c @ replicate (len - length c) 0))))"


text \<open>
  The numbers of the source are IEEE binary64 numbers, and each of its three arithmetic
  operations rounds its exact result to one. \<open>fl\<close> is that rounding, a parameter; \<open>u\<close>
  is the value of \<^verbatim>\<open>Math.random()\<close>. The constants 0.25 and 0.5 and a size below
  \<open>2 ^ 53\<close> are binary64 numbers themselves.
\<close>

definition FileProperties_truncate ::
  "(real \<Rightarrow> real) \<Rightarrow> real \<Rightarrow> FileData \<Rightarrow> filesystem \<Rightarrow>
   error + (FileData \<times> filesystem)" where
  "FileProperties_truncate fl u fileData fsys =
     (let newSize = nat \<lfloor>fl (fl (0.25 + fl (u * 0.5)) * real (size_fd fileData))\<rfloor>
      in case Deno_truncate (path fileData) newSize fsys of
           Inl e \<Rightarrow> Inl e
         | Inr fsys' \<Rightarrow> Inr (fileData\<lparr>size_fd := newSize\<rparr>, fsys'))"

text \<open>
  The binary64 numbers: an integer of at most 53 bits times a power of two within the
  exponent range. What is used of the rounding is that it keeps the order of the
  non-negative numbers and leaves a binary64 number as it is; both hold for the rounding
  of IEEE arithmetic in each of its modes.
\<close>

definition binary64 :: "real \<Rightarrow> bool" where
  "binary64 x \<longleftrightarrow>
     (\<exists>m e :: int. \<bar>m\<bar> < 2 ^ 53 \<and> - 1074 \<le> e \<and> e \<le> 971 \<and> x = of_int m * 2 powr of_int e)"

definition rounding :: "(real \<Rightarrow> real) \<Rightarrow> bool" where
  "rounding fl \<longleftrightarrow>
     (\<forall>x y. 0 \<le> x \<longrightarrow> x \<le> y \<longrightarrow> fl x \<le> fl y) \<and>
     (\<forall>x. 0 \<le> x \<longrightarrow> binary64 x \<longrightarrow> fl x = x)"

text \<open>
  Rounding to the nearest number of 53 significant bits, a tie going to the even one:
  the default rounding of binary64 arithmetic, without the limits of the exponent.
\<close>

definition round_even :: "real \<Rightarrow> int" where
  "round_even y =
     (if y - of_int \<lfloor>y\<rfloor> < 1 / 2 then \<lfloor>y\<rfloor>
      else if 1 / 2 < y - of_int \<lfloor>y\<rfloor> then \<lfloor>y\<rfloor> + 1
      else if even \<lfloor>y\<rfloor> then \<lfloor>y\<rfloor> else \<lfloor>y\<rfloor> + 1)"

definition nearest53 :: "real \<Rightarrow> real" where
  "nearest53 x =
     (if x = 0 then 0
      else sgn x * of_int (round_even (\<bar>x\<bar> / 2 powr of_int (\<lfloor>log 2 \<bar>x\<bar>\<rfloor> - 52)))
             * 2 powr of_int (\<lfloor>log 2 \<bar>x\<bar>\<rfloor> - 52))"

definition DirectoryWriter_init :: "path \<Rightarrow> filesystem \<Rightarrow> error + DirData" where
  "DirectoryWriter_init p fsys =
     (case fsys p of
        None \<Rightarrow> Inl NotFound
      | Some (File content) \<Rightarrow> Inl (Error ''The specified path is not a directory.'')
      | Some Dir \<Rightarrow> Inr \<lparr>path = p\<rparr>)"


section \<open>What one call of \<^verbatim>\<open>write\<close> copies\<close>

text \<open>
  \<open>stream g b n rnd\<close> is the sequence of bytes that the copy loop sends to the file
  when the reader starts with \<open>n\<close> bytes to go, the buffer is \<open>b\<close> and \<open>getValues\<close> is
  \<open>g\<close>, together with the random source left at the end.
\<close>

function stream :: "getValues_impl \<Rightarrow> bytes \<Rightarrow> nat \<Rightarrow> rand \<Rightarrow> bytes \<times> rand" where
  "stream g b n rnd =
     (if min (length b) n = 0 then ([], rnd)
      else (case getValues g rnd b of
              (b', rnd') \<Rightarrow>
                (case stream g b' (n - min (length b) n) rnd' of
                   (rest, rnd'') \<Rightarrow> (take (min (length b) n) b' @ rest, rnd''))))"
  by pat_completeness auto
termination
  by (relation "measure (\<lambda>(g, b, n, rnd). n)") auto

declare stream.simps [simp del]

definition written :: "cls \<Rightarrow> FileData \<Rightarrow> world \<Rightarrow> bytes" where
  "written this fileData w =
     fst (stream (this_getValues this (statics w)) (replicate DEFAULT_BUFFER_SIZE 0)
            (size_fd fileData) (crypto w))"

definition crypto_after :: "cls \<Rightarrow> FileData \<Rightarrow> world \<Rightarrow> rand" where
  "crypto_after this fileData w =
     snd (stream (this_getValues this (statics w)) (replicate DEFAULT_BUFFER_SIZE 0)
            (size_fd fileData) (crypto w))"

text \<open>
  The target record after the chunks \<open>ws\<close> were copied: they were fed to its checksum
  if verification was requested, and nothing else has changed.
\<close>

definition fed :: "FileData \<Rightarrow> bytes \<Rightarrow> FileData" where
  "fed fileData ws =
     (if verifyChecksum fileData then fileData\<lparr>checksum := checksum fileData @ ws\<rparr>
      else fileData)"

text \<open>
  For a call of \<^verbatim>\<open>write\<close>: the class it is made on, the assignment to the static
  property that the call makes before it reaches \<^verbatim>\<open>FileWriter.write\<close>, and the
  \<^verbatim>\<open>getValues\<close> that \<^verbatim>\<open>FileWriter.write\<close> then finds.
\<close>

fun cls_of :: "invocation \<Rightarrow> cls" where
  "cls_of FileWriter_call = FileWriter_cls"
| "cls_of Random_call = Random_cls"
| "cls_of RandomByte_call = RandomByte_cls"
| "cls_of Zero_call = Zero_cls"
| "cls_of One_call = One_cls"
| "cls_of (Byte_call byte) = Byte_cls"
| "cls_of (ByteArray_call byteArray) = ByteArray_cls"

fun assigned :: "invocation \<Rightarrow> Statics \<Rightarrow> Statics" where
  "assigned (Byte_call byte) s = s\<lparr>Byte_getValues := Some (Byte_closure byte)\<rparr>"
| "assigned (ByteArray_call byteArray) s =
     s\<lparr>ByteArray_getValues := Some (ByteArray_closure byteArray)\<rparr>"
| "assigned c s = s"

fun getValues_of :: "invocation \<Rightarrow> getValues_impl" where
  "getValues_of FileWriter_call = FileWriter_getValues"
| "getValues_of Random_call = Random_getValues"
| "getValues_of RandomByte_call = RandomByte_getValues"
| "getValues_of Zero_call = Zero_getValues"
| "getValues_of One_call = One_getValues"
| "getValues_of (Byte_call byte) = Byte_closure byte"
| "getValues_of (ByteArray_call byteArray) = ByteArray_closure byteArray"

text \<open>The content of the regular file at \<open>p\<close> after an operation, if it succeeded.\<close>

definition content_after :: "error + (FileData \<times> world) \<Rightarrow> path \<Rightarrow> bytes option" where
  "content_after r p =
     (case r of
        Inl e \<Rightarrow> None
      | Inr (fileData, w) \<Rightarrow>
          (case fs w p of Some (File content) \<Rightarrow> Some content | _ \<Rightarrow> None))"


section \<open>The copy loop\<close>


lemma getValues_length: "length (fst (getValues g rnd p)) = length p"
  by (cases g) (simp_all add: crypto_getRandomValues_def fill_def)

lemma getValues_length': "getValues g rnd p = (p', rnd') \<Longrightarrow> length p' = length p"
  using getValues_length [of g rnd p] by simp


lemma fed_Nil: "fed fd [] = fd"
  by (simp add: fed_def)

lemma fed_fed: "fed (fed fd xs) ys = fed fd (xs @ ys)"
  by (simp add: fed_def)

lemma stream_0: "stream g b 0 rnd = ([], rnd)"
  by (subst stream.simps) simp

lemma Deno_iter_Nil: "Deno_iter [] = []"
  by (subst Deno_iter.simps) simp

lemma copy_loop_stream:
  "b \<noteq> [] \<Longrightarrow>
   copy_loop g b st out =
     (st\<lparr>size_local := 0,
         r_fileData := fed (r_fileData st) (fst (stream g b (size_local st) (r_crypto st))),
         r_crypto := snd (stream g b (size_local st) (r_crypto st))\<rparr>,
      out @ fst (stream g b (size_local st) (r_crypto st)))"
proof (induction g b st out rule: copy_loop.induct)
  case (1 g b st out)
  let ?len = "min (length b) (size_local st)"
  show ?case
  proof (cases "?len = 0")
    case True
    with "1.prems" have z: "size_local st = 0" by (cases b) auto
    have "src_read g b st = (None, b, st)"
      using z by (simp add: src_read_def)
    then show ?thesis
      using z by (subst copy_loop.simps) (simp add: fed_Nil stream_0)
  next
    case False
    from False have nz: "(min (length b) (size_local st) = 0) = False" by blast
    obtain b' rnd' where gv: "getValues g (r_crypto st) b = (b', rnd')"
      by (cases "getValues g (r_crypto st) b")
    have lb: "length b' = length b" using gv by (rule getValues_length')
    with "1.prems" have ne: "b' \<noteq> []" by auto
    define st' where "st' = st\<lparr>size_local := size_local st - ?len,
        r_fileData := fed (r_fileData st) (take ?len b'), r_crypto := rnd'\<rparr>"
    have rd: "src_read g b st = (Some ?len, b', st')"
      using False gv by (simp add: src_read_def Let_def st'_def fed_def Sha256_update_def)
    have ih: "copy_loop g b' st' (out @ take ?len b') =
      (st'\<lparr>size_local := 0,
         r_fileData := fed (r_fileData st') (fst (stream g b' (size_local st') (r_crypto st'))),
         r_crypto := snd (stream g b' (size_local st') (r_crypto st'))\<rparr>,
      (out @ take ?len b') @ fst (stream g b' (size_local st') (r_crypto st')))"
      using "1.IH" [OF rd [symmetric] refl refl ne] .
    have st: "stream g b (size_local st) (r_crypto st) =
       (take ?len b' @ fst (stream g b' (size_local st - ?len) rnd'),
        snd (stream g b' (size_local st - ?len) rnd'))"
      using gv by (subst stream.simps) (simp only: nz if_False prod.case fst_conv snd_conv split_beta)
    have "copy_loop g b st out = copy_loop g b' st' (out @ take ?len b')"
      by (subst copy_loop.simps) (simp only: rd prod.case option.case)
    also note ih
    finally show ?thesis
      by (simp add: st st'_def fed_fed)
  qed
qed

lemma length_stream: "b \<noteq> [] \<Longrightarrow> length (fst (stream g b n rnd)) = n"
proof (induction g b n rnd rule: stream.induct)
  case (1 g b n rnd)
  show ?case
  proof (cases "min (length b) n = 0")
    case True
    with "1.prems" have "n = 0" by (cases b) auto
    then show ?thesis by (simp add: stream_0)
  next
    case False
    obtain b' rnd' where gv: "getValues g rnd b = (b', rnd')"
      by (cases "getValues g rnd b")
    have lb: "length b' = length b" using gv by (rule getValues_length')
    with "1.prems" have ne: "b' \<noteq> []" by auto
    have ih: "length (fst (stream g b' (n - min (length b) n) rnd')) = n - min (length b) n"
      using "1.IH" [OF False gv [symmetric] ne] .
    show ?thesis
      using False gv ih lb by (subst stream.simps) (simp add: split_beta)
  qed
qed

lemma Sha256_update_eq: "Sha256_update = (@)"
  by (intro ext) (simp add: Sha256_update_def)

lemma fold_Deno_iter: "foldl Sha256_update acc (Deno_iter content) = acc @ content"
proof (induction content arbitrary: acc rule: Deno_iter.induct)
  case (1 content)
  show ?case
  proof (cases "content = []")
    case True
    then show ?thesis by (simp add: Deno_iter_Nil)
  next
    case False
    then show ?thesis
      using "1.IH" [OF False] by (subst Deno_iter.simps) (simp add: Sha256_update_eq)
  qed
qed


lemma DEFAULT_BUFFER_SIZE_pos: "0 < DEFAULT_BUFFER_SIZE"
  by (simp add: DEFAULT_BUFFER_SIZE_def)

lemma buffer_not_Nil: "replicate DEFAULT_BUFFER_SIZE (0::byte) \<noteq> []"
  using DEFAULT_BUFFER_SIZE_pos by simp

lemma length_written: "length (written this fd w) = size_fd fd"
  by (simp add: written_def length_stream [OF buffer_not_Nil])

lemma Deno_copy_eq:
  "Deno_copy (this_getValues this (statics w))
     \<lparr>size_local = size_fd fd, r_fileData = fd, r_crypto = crypto w\<rparr> =
   (\<lparr>size_local = 0, r_fileData = fed fd (written this fd w),
     r_crypto = crypto_after this fd w\<rparr>, written this fd w)"
  by (simp add: Deno_copy_def copy_loop_stream [OF buffer_not_Nil] written_def crypto_after_def)

lemma fed_fields [simp]:
  "path (fed fd ws) = path fd" "size_fd (fed fd ws) = size_fd fd"
  "verifyChecksum (fed fd ws) = verifyChecksum fd"
  by (simp_all add: fed_def)

lemma verify_File:
  "fsys (path fd) = Some (File content) \<Longrightarrow>
   FileWriter_verify hex fd fsys =
     Inr (if hex (checksum fd) \<noteq> hex content then Some ''Invalid checksum'' else None, fd)"
  by (simp add: FileWriter_verify_def fold_Deno_iter Sha256_new_def)

lemma FileWriter_write_File:
  assumes "fs w (path fd) = Some (File old)"
  shows "FileWriter_write hex this fd w =
     Inr ((fed fd (written this fd w))\<lparr>verifyChecksum := False\<rparr>,
          w\<lparr>crypto := crypto_after this fd w,
            fs := (fs w)(path fd \<mapsto> File (written this fd w @ drop (size_fd fd) old))\<rparr>)"
proof (cases "verifyChecksum fd")
  case True
  then show ?thesis
    using assms
    by (simp add: FileWriter_write_def Deno_copy_eq length_written verify_File)
next
  case False
  then have "fed fd (written this fd w) = fd" "fd\<lparr>verifyChecksum := False\<rparr> = fd"
    by (simp_all add: fed_def)
  then show ?thesis
    using assms False
    by (simp add: FileWriter_write_def Deno_copy_eq length_written)
qed

lemma invoke_eq:
  "invoke hex c fd w =
     FileWriter_write hex (cls_of c) fd (w\<lparr>statics := assigned c (statics w)\<rparr>)"
  by (cases c)
     (simp_all add: Random_write_def RandomByte_write_def Zero_write_def One_write_def
        Byte_write_def ByteArray_write_def)

lemma this_getValues_assigned: "this_getValues (cls_of c) (assigned c s) = getValues_of c"
  by (cases c) simp_all

lemma written_assigned:
  "written (cls_of c) fd (w\<lparr>statics := assigned c (statics w)\<rparr>) =
   fst (stream (getValues_of c) (replicate DEFAULT_BUFFER_SIZE 0) (size_fd fd) (crypto w))"
  by (simp add: written_def this_getValues_assigned)

lemma crypto_after_assigned:
  "crypto_after (cls_of c) fd (w\<lparr>statics := assigned c (statics w)\<rparr>) =
   snd (stream (getValues_of c) (replicate DEFAULT_BUFFER_SIZE 0) (size_fd fd) (crypto w))"
  by (simp add: crypto_after_def this_getValues_assigned)

lemma invoke_File:
  assumes "fs w (path fd) = Some (File old)"
  shows "invoke hex c fd w =
     Inr ((fed fd (written (cls_of c) fd (w\<lparr>statics := assigned c (statics w)\<rparr>)))
            \<lparr>verifyChecksum := False\<rparr>,
          w\<lparr>statics := assigned c (statics w),
            crypto := crypto_after (cls_of c) fd (w\<lparr>statics := assigned c (statics w)\<rparr>),
            fs := (fs w)(path fd \<mapsto>
                    File (written (cls_of c) fd (w\<lparr>statics := assigned c (statics w)\<rparr>)
                          @ drop (size_fd fd) old))\<rparr>)"
  using assms by (simp add: invoke_eq FileWriter_write_File)

lemma Deno_copy_stream:
  "Deno_copy g st =
   (st\<lparr>size_local := 0,
       r_fileData := fed (r_fileData st)
          (fst (stream g (replicate DEFAULT_BUFFER_SIZE 0) (size_local st) (r_crypto st))),
       r_crypto := snd (stream g (replicate DEFAULT_BUFFER_SIZE 0) (size_local st) (r_crypto st))\<rparr>,
    fst (stream g (replicate DEFAULT_BUFFER_SIZE 0) (size_local st) (r_crypto st)))"
  by (simp add: Deno_copy_def copy_loop_stream [OF buffer_not_Nil])

section \<open>What \<^verbatim>\<open>ByteArray\<close> and \<^verbatim>\<open>RandomByte\<close> copy\<close>

lemma chunk_step:
  assumes "0 < c"
  shows "take (min c n) (map f [0..<c]) @ map (\<lambda>i. f (i mod c)) [0..<n - min c n] =
         map (\<lambda>i. f (i mod c)) [0..<n]"
proof (rule nth_equalityI)
  show "length (take (min c n) (map f [0..<c]) @ map (\<lambda>i. f (i mod c)) [0..<n - min c n]) =
        length (map (\<lambda>i. f (i mod c)) [0..<n])"
    by simp
next
  fix i
  assume "i < length (take (min c n) (map f [0..<c]) @ map (\<lambda>i. f (i mod c)) [0..<n - min c n])"
  then have i: "i < n" by simp
  show "(take (min c n) (map f [0..<c]) @ map (\<lambda>i. f (i mod c)) [0..<n - min c n]) ! i =
        map (\<lambda>i. f (i mod c)) [0..<n] ! i"
  proof (cases "i < min c n")
    case True
    then show ?thesis using i by (simp add: nth_append)
  next
    case False
    with i have c: "min c n = c" "c \<le> i" by auto
    then have "(i - c) mod c = i mod c" by (simp add: le_mod_geq)
    then show ?thesis using i c False assms by (simp add: nth_append)
  qed
qed

lemma stream_ByteArray:
  "b \<noteq> [] \<Longrightarrow>
   stream (ByteArray_closure byteArray) b n rnd =
     (map (\<lambda>i. byteArray_at byteArray (i mod length b)) [0..<n], rnd)"
proof (induction "ByteArray_closure byteArray" b n rnd rule: stream.induct)
  case (1 b n rnd)
  show ?case
  proof (cases "min (length b) n = 0")
    case True
    with "1.prems" have "n = 0" by (cases b) auto
    then show ?thesis by (simp add: stream_0)
  next
    case False
    then have nz: "(min (length b) n = 0) = False" by blast
    let ?b' = "map (\<lambda>i. byteArray_at byteArray i) [0..<length b]"
    have gv: "getValues (ByteArray_closure byteArray) rnd b = (?b', rnd)" by simp
    from "1.prems" have ne: "?b' \<noteq> []" by simp
    have ih: "stream (ByteArray_closure byteArray) ?b' (n - min (length b) n) rnd =
       (map (\<lambda>i. byteArray_at byteArray (i mod length ?b')) [0..<n - min (length b) n], rnd)"
      using "1.hyps" [OF False gv [symmetric] ne] .
    have "stream (ByteArray_closure byteArray) b n rnd =
       (take (min (length b) n) ?b' @
        map (\<lambda>i. byteArray_at byteArray (i mod length b)) [0..<n - min (length b) n], rnd)"
      by (subst stream.simps) (simp only: nz if_False gv prod.case ih length_map length_upt diff_zero)
    also have "take (min (length b) n) ?b' @
        map (\<lambda>i. byteArray_at byteArray (i mod length b)) [0..<n - min (length b) n] =
        map (\<lambda>i. byteArray_at byteArray (i mod length b)) [0..<n]"
      using "1.prems" by (intro chunk_step) simp
    finally show ?thesis .
  qed
qed

lemma written_ByteArray:
  "written ByteArray_cls fd
     (w\<lparr>statics := (statics w)\<lparr>ByteArray_getValues := Some (ByteArray_closure byteArray)\<rparr>\<rparr>) =
   map (\<lambda>i. byteArray_at byteArray (i mod DEFAULT_BUFFER_SIZE)) [0..<size_fd fd]"
  by (simp add: written_def stream_ByteArray [OF buffer_not_Nil])

lemma ByteArray_write_File:
  assumes "fs w (path fd) = Some (File old)"
  shows "content_after (ByteArray_write hex fd byteArray w) (path fd) =
     Some (map (\<lambda>i. byteArray_at byteArray (i mod DEFAULT_BUFFER_SIZE)) [0..<size_fd fd]
           @ drop (size_fd fd) old)"
  using assms
  by (simp add: ByteArray_write_def FileWriter_write_File written_ByteArray content_after_def)

lemma upt_7: "[0..<7] = [0, 1, 2, 3, 4, 5, 6]"
  by code_simp

lemma stream_RandomByte:
  assumes "b \<noteq> []" and "0 < n"
  shows "stream RandomByte_getValues b n rnd =
     (replicate (min (length b) n) (rnd 0) @
        fst (stream RandomByte_getValues (replicate (length b) (rnd 0))
               (n - min (length b) n) (\<lambda>i. rnd (i + 1))),
      snd (stream RandomByte_getValues (replicate (length b) (rnd 0))
               (n - min (length b) n) (\<lambda>i. rnd (i + 1))))"
proof -
  from assms have nz: "(min (length b) n = 0) = False" by (cases b) auto
  show ?thesis
    by (subst stream.simps) (simp add: nz split_beta crypto_getRandomValues_def fill_def)
qed

section \<open>Calls in sequence\<close>





section \<open>What \<^verbatim>\<open>Byte\<close> copies, and fills that draw no random bytes\<close>





section \<open>Rounding to binary64\<close>

lemma round_even_of_int: "round_even (of_int k) = k"
  by (simp add: round_even_def)

lemma round_even_bounds: "\<lfloor>y\<rfloor> \<le> round_even y" "round_even y \<le> \<lfloor>y\<rfloor> + 1"
  by (simp_all add: round_even_def)

lemma round_even_mono:
  assumes "x \<le> y"
  shows "round_even x \<le> round_even y"
proof (cases "\<lfloor>x\<rfloor> < \<lfloor>y\<rfloor>")
  case True
  have "round_even x \<le> \<lfloor>x\<rfloor> + 1" by (rule round_even_bounds)
  also have "\<dots> \<le> \<lfloor>y\<rfloor>" using True by simp
  also have "\<dots> \<le> round_even y" by (rule round_even_bounds)
  finally show ?thesis .
next
  case False
  with assms have "\<lfloor>x\<rfloor> = \<lfloor>y\<rfloor>"
    using floor_mono [of x y] by simp
  with assms show ?thesis
    by (auto simp: round_even_def)
qed

lemma binade:
  assumes "0 < x"
  shows "2 powr of_int \<lfloor>log 2 x\<rfloor> \<le> x" and "x < 2 powr of_int (\<lfloor>log 2 x\<rfloor> + 1)"
proof -
  have x: "x = 2 powr log 2 x" using assms by simp
  have "of_int \<lfloor>log 2 x\<rfloor> \<le> log 2 x" by simp
  then have "2 powr of_int \<lfloor>log 2 x\<rfloor> \<le> 2 powr log 2 x" by simp
  with x show "2 powr of_int \<lfloor>log 2 x\<rfloor> \<le> x" by simp
  have "log 2 x < of_int (\<lfloor>log 2 x\<rfloor> + 1)" by linarith
  then have "2 powr log 2 x < 2 powr of_int (\<lfloor>log 2 x\<rfloor> + 1)" by simp
  with x show "x < 2 powr of_int (\<lfloor>log 2 x\<rfloor> + 1)" by simp
qed

lemma nearest53_pos:
  "0 < x \<Longrightarrow>
   nearest53 x = of_int (round_even (x / 2 powr of_int (\<lfloor>log 2 x\<rfloor> - 52)))
     * 2 powr of_int (\<lfloor>log 2 x\<rfloor> - 52)"
  by (simp add: nearest53_def)

lemma powr_shift: "2 powr of_int (k + 52) = 2 powr of_int k * (2 ^ 52 :: real)"
  "2 powr of_int (k + 53) = 2 powr of_int k * (2 ^ 53 :: real)"
  by (simp_all add: powr_add)

lemma significand_bounds:
  assumes "0 < x"
  shows "2 ^ 52 \<le> round_even (x / 2 powr of_int (\<lfloor>log 2 x\<rfloor> - 52))"
    and "round_even (x / 2 powr of_int (\<lfloor>log 2 x\<rfloor> - 52)) \<le> 2 ^ 53"
proof -
  let ?e = "\<lfloor>log 2 x\<rfloor> - 52"
  let ?q = "2 powr of_int ?e :: real"
  have q: "0 < ?q" by simp
  have "2 powr of_int (?e + 52) \<le> x" using binade(1) [OF assms] by simp
  then have "?q * 2 ^ 52 \<le> x" by (simp only: powr_shift)
  then have lo: "of_int (2 ^ 52) \<le> x / ?q" using q by (simp add: field_simps)
  have "x < 2 powr of_int (?e + 53)" using binade(2) [OF assms] by (simp add: add.commute)
  then have "x < ?q * 2 ^ 53" by (simp only: powr_shift)
  then have hi: "x / ?q \<le> of_int (2 ^ 53)" using q by (simp add: field_simps)
  from round_even_mono [OF lo] show "2 ^ 52 \<le> round_even (x / ?q)"
    by (simp only: round_even_of_int)
  from round_even_mono [OF hi] show "round_even (x / ?q) \<le> 2 ^ 53"
    by (simp only: round_even_of_int)
qed

lemma nearest53_bounds:
  assumes "0 < x"
  shows "2 powr of_int \<lfloor>log 2 x\<rfloor> \<le> nearest53 x"
    and "nearest53 x \<le> 2 powr of_int (\<lfloor>log 2 x\<rfloor> + 1)"
proof -
  let ?e = "\<lfloor>log 2 x\<rfloor> - 52"
  let ?q = "2 powr of_int ?e :: real"
  let ?m = "round_even (x / ?q)"
  have q: "0 < ?q" by simp
  have n: "nearest53 x = of_int ?m * ?q" using assms by (rule nearest53_pos)
  have "(2 ^ 52 :: real) \<le> of_int ?m"
    using significand_bounds(1) [OF assms] by (metis of_int_le_iff of_int_numeral of_int_power)
  then have "?q * 2 ^ 52 \<le> of_int ?m * ?q" using q by (simp add: mult.commute)
  moreover have "2 powr of_int \<lfloor>log 2 x\<rfloor> = ?q * 2 ^ 52"
    using powr_shift(1) [of ?e] by simp
  ultimately show "2 powr of_int \<lfloor>log 2 x\<rfloor> \<le> nearest53 x" using n by simp
  have "of_int ?m \<le> (2 ^ 53 :: real)"
    using significand_bounds(2) [OF assms] by (metis of_int_le_iff of_int_numeral of_int_power)
  then have "of_int ?m * ?q \<le> ?q * 2 ^ 53" using q by (simp add: mult.commute)
  moreover have "2 powr of_int (\<lfloor>log 2 x\<rfloor> + 1) = ?q * 2 ^ 53"
    using powr_shift(2) [of ?e] by (simp add: add.commute)
  ultimately show "nearest53 x \<le> 2 powr of_int (\<lfloor>log 2 x\<rfloor> + 1)" using n by simp
qed

lemma nearest53_mono:
  assumes "0 \<le> x" and "x \<le> y"
  shows "nearest53 x \<le> nearest53 y"
proof (cases "x = 0")
  case True
  show ?thesis
  proof (cases "y = 0")
    case True
    with \<open>x = 0\<close> show ?thesis by simp
  next
    case False
    with assms have "0 < y" by simp
    from nearest53_bounds(1) [OF this] have "0 \<le> nearest53 y"
      by (meson order_trans powr_ge_zero)
    with \<open>x = 0\<close> show ?thesis by (simp add: nearest53_def)
  qed
next
  case False
  with assms have x: "0 < x" and y: "0 < y" by simp_all
  have le: "\<lfloor>log 2 x\<rfloor> \<le> \<lfloor>log 2 y\<rfloor>"
    using x y assms(2) by (intro floor_mono) simp
  show ?thesis
  proof (cases "\<lfloor>log 2 x\<rfloor> = \<lfloor>log 2 y\<rfloor>")
    case True
    let ?q = "2 powr of_int (\<lfloor>log 2 y\<rfloor> - 52) :: real"
    have q: "0 < ?q" by simp
    have "x / ?q \<le> y / ?q" using assms(2) q by (simp add: divide_right_mono)
    then have "round_even (x / ?q) \<le> round_even (y / ?q)" by (rule round_even_mono)
    then have "of_int (round_even (x / ?q)) * ?q \<le> of_int (round_even (y / ?q)) * ?q"
      using q by (simp add: mult_right_mono)
    then show ?thesis
      using True by (simp add: nearest53_pos [OF x] nearest53_pos [OF y])
  next
    case False
    with le have "\<lfloor>log 2 x\<rfloor> + 1 \<le> \<lfloor>log 2 y\<rfloor>" by simp
    then have "(2::real) powr of_int (\<lfloor>log 2 x\<rfloor> + 1) \<le> 2 powr of_int \<lfloor>log 2 y\<rfloor>"
      by simp
    with nearest53_bounds(2) [OF x] nearest53_bounds(1) [OF y] show ?thesis by linarith
  qed
qed

lemma nearest53_exact_pos:
  fixes m e :: int
  assumes "0 < m" and "m < 2 ^ 53"
  shows "nearest53 (of_int m * 2 powr of_int e) = of_int m * 2 powr of_int e"
proof -
  let ?x = "of_int m * 2 powr of_int e :: real"
  let ?b = "\<lfloor>log 2 (of_int m)\<rfloor>"
  have m: "0 < (of_int m :: real)" using assms(1) by simp
  have x: "0 < ?x" using m by simp
  have "log 2 ?x = log 2 (of_int m) + of_int e"
    using m by (simp add: log_mult)
  then have fl: "\<lfloor>log 2 ?x\<rfloor> = ?b + e" by simp
  have "2 powr of_int ?b \<le> (of_int m :: real)" using binade(1) [OF m] .
  also have "(of_int m :: real) < 2 ^ 53"
    using assms(2) by (metis of_int_less_iff of_int_numeral of_int_power)
  also have "(2 ^ 53 :: real) = 2 powr of_int 53" by simp
  finally have "?b < 53" by (simp only: powr_less_cancel_iff of_int_less_iff) 
  then have b: "?b \<le> 52" by simp
  define k where "k = nat (52 - ?b)"
  have k: "52 - ?b = int k" using b by (simp add: k_def)
  let ?Q = "2 powr of_int (?b + e - 52) :: real"
  have "of_int (52 - ?b) + of_int (?b + e - 52) = (of_int e :: real)" by simp
  then have "(2 :: real) powr of_int e = 2 powr of_int (52 - ?b) * ?Q"
    by (simp only: powr_add [symmetric])
  also have "(2 :: real) powr of_int (52 - ?b) = 2 ^ k"
    unfolding k by (simp add: powr_realpow)
  finally have e: "(2 :: real) powr of_int e = 2 ^ k * ?Q" .
  have Q: "?Q \<noteq> 0" by simp
  have "?x / ?Q = of_int m * 2 ^ k * ?Q / ?Q" unfolding e by (simp only: mult.assoc)
  also have "\<dots> = of_int m * 2 ^ k" using Q by simp
  also have "\<dots> = of_int (m * 2 ^ k)" by simp
  finally have q: "?x / ?Q = of_int (m * 2 ^ k)" .
  have "nearest53 ?x = of_int (m * 2 ^ k) * 2 powr of_int (?b + e - 52)"
    unfolding nearest53_pos [OF x] fl q round_even_of_int ..
  also have "\<dots> = ?x / 2 powr of_int (?b + e - 52) * 2 powr of_int (?b + e - 52)"
    unfolding q ..
  also have "\<dots> = ?x" by simp
  finally show ?thesis .
qed

lemma nearest53_exact: "0 \<le> x \<Longrightarrow> binary64 x \<Longrightarrow> nearest53 x = x"
proof -
  assume x: "0 \<le> x" and "binary64 x"
  then obtain m e :: int where me: "\<bar>m\<bar> < 2 ^ 53" "x = of_int m * 2 powr of_int e"
    unfolding binary64_def by blast
  show ?thesis
  proof (cases "m \<le> 0")
    case True
    then have "x \<le> 0" unfolding me(2) by (simp add: mult_nonpos_nonneg)
    with x have "x = 0" by simp
    then show ?thesis by (simp add: nearest53_def)
  next
    case False
    with me(1) have "0 < m" "m < 2 ^ 53" by simp_all
    then show ?thesis unfolding me(2) by (rule nearest53_exact_pos)
  qed
qed

lemma rounding_nearest53: "rounding nearest53"
  unfolding rounding_def using nearest53_mono nearest53_exact by blast

lemma binary64_quarters:
  assumes "n < 2 ^ 53"
  shows "binary64 (real n / 4)"
proof -
  have "(2 :: real) powr of_int (- 2) = 1 / 4"
    by (simp add: powr_minus_divide)
  then have "real n / 4 = of_int (int n) * 2 powr of_int (- 2)" by simp
  moreover have "\<bar>int n\<bar> < 2 ^ 53" using assms by simp
  ultimately show ?thesis unfolding binary64_def by (intro exI [of _ "int n"] exI [of _ "- 2"]) simp
qed

lemma rounding_quarters:
  assumes "rounding fl" and "n < 2 ^ 53"
  shows "fl (real n / 4) = real n / 4"
  using assms binary64_quarters [OF assms(2)] unfolding rounding_def by simp

lemma truncate_newSize:
  fixes u :: real and n :: nat
  assumes fl: "rounding fl" and u: "0 \<le> u" "u < 1" and n: "3 * n < 2 ^ 53"
  shows "n div 4 \<le> nat \<lfloor>fl (fl (0.25 + fl (u * 0.5)) * real n)\<rfloor>"
    and "4 * nat \<lfloor>fl (fl (0.25 + fl (u * 0.5)) * real n)\<rfloor> \<le> 3 * n"
proof -
  have mono: "fl x \<le> fl y" if "0 \<le> x" "x \<le> y" for x y
    using fl that unfolding rounding_def by blast
  have e0: "fl 0 = 0" using rounding_quarters [OF fl, of 0] by simp
  have e1: "fl (1 / 4) = 1 / 4" using rounding_quarters [OF fl, of 1] by simp
  have e2: "fl (1 / 2) = 1 / 2" using rounding_quarters [OF fl, of 2] by simp
  have e3: "fl (3 / 4) = 3 / 4" using rounding_quarters [OF fl, of 3] by simp
  have en: "fl (real n / 4) = real n / 4" using rounding_quarters [OF fl, of n] n by simp
  have e3n: "fl (real (3 * n) / 4) = real (3 * n) / 4"
    using rounding_quarters [OF fl, of "3 * n"] n by simp
  define a where "a = fl (u * 0.5)"
  define r where "r = fl (0.25 + a)"
  define p where "p = fl (r * real n)"
  have a: "0 \<le> a" "a \<le> 1 / 2"
    using mono [of 0 "u * 0.5"] mono [of "u * 0.5" "1 / 2"] u e0 e2 by (simp_all add: a_def)
  have r: "1 / 4 \<le> r" "r \<le> 3 / 4"
    using mono [of "1 / 4" "0.25 + a"] mono [of "0.25 + a" "3 / 4"] a e1 e3 by (simp_all add: r_def)
  have "real n / 4 \<le> r * real n" "r * real n \<le> real (3 * n) / 4"
    using r mult_right_mono [of "1 / 4" r "real n"] mult_right_mono [of r "3 / 4" "real n"]
    by simp_all
  then have p: "real n / 4 \<le> p" "p \<le> real (3 * n) / 4"
    using mono [of "real n / 4" "r * real n"] mono [of "r * real n" "real (3 * n) / 4"] en e3n r
    by (simp_all add: p_def)
  have "\<lfloor>real n / 4\<rfloor> \<le> \<lfloor>p\<rfloor>" using p(1) by (rule floor_mono)
  moreover have "\<lfloor>real n / 4\<rfloor> = int (n div 4)"
    by (simp add: floor_divide_of_nat_eq [of n 4, simplified])
  ultimately have "n div 4 \<le> nat \<lfloor>p\<rfloor>" by linarith
  then show "n div 4 \<le> nat \<lfloor>fl (fl (0.25 + fl (u * 0.5)) * real n)\<rfloor>"
    by (simp only: p_def r_def a_def)
  have "0 \<le> p" using p(1) by (meson order_trans of_nat_0_le_iff divide_nonneg_pos zero_less_numeral)
  then have "real (nat \<lfloor>p\<rfloor>) \<le> p" by simp
  with p(2) have "real (nat \<lfloor>p\<rfloor>) \<le> real (3 * n) / 4" by linarith
  then have "real (4 * nat \<lfloor>p\<rfloor>) \<le> real (3 * n)" by simp
  then have "4 * nat \<lfloor>p\<rfloor> \<le> 3 * n" by (simp only: of_nat_le_iff)
  then show "4 * nat \<lfloor>fl (fl (0.25 + fl (u * 0.5)) * real n)\<rfloor> \<le> 3 * n"
    by (simp only: p_def r_def a_def)
qed

lemma nearest53_quarters: "n < 2 ^ 53 \<Longrightarrow> nearest53 (real n / 4) = real n / 4"
  using rounding_quarters [OF rounding_nearest53] .

lemma nearest53_values:
  "nearest53 0 = 0" "nearest53 (1 / 4) = 1 / 4" "nearest53 (1 / 2) = 1 / 2" "nearest53 2 = 2"
  using nearest53_quarters [of 0] nearest53_quarters [of 1] nearest53_quarters [of 2]
    nearest53_quarters [of 8]
  by simp_all

lemma floor_log2_eq:
  assumes "2 powr of_int k \<le> x" and "x < 2 powr of_int (k + 1)"
  shows "\<lfloor>log 2 x\<rfloor> = k"
proof -
  have "(0 :: real) < 2 powr of_int k" by simp
  with assms(1) have x: "0 < x" by linarith
  have lo: "of_int k \<le> log 2 x"
    using assms(1) x by (simp add: le_log_iff)
  have "log 2 x < of_int (k + 1)"
    using assms(2) x by (simp add: log_less_iff)
  then have hi: "log 2 x < of_int k + 1" by simp
  from lo hi show ?thesis by (rule floor_unique)
qed

lemma nearest53_tie:
  "nearest53 (18014398509481983 / 2 ^ 53) = 2"
proof -
  let ?x = "18014398509481983 / 2 ^ 53 :: real"
  have "2 powr of_int 0 \<le> ?x" "?x < 2 powr of_int (0 + 1)" by simp_all
  then have l: "\<lfloor>log 2 ?x\<rfloor> = 0" by (rule floor_log2_eq)
  have q: "(2 :: real) powr of_int (0 - 52) = 1 / 2 ^ 52"
    by (simp add: powr_minus_divide)
  have d: "?x / (1 / 2 ^ 52) = 18014398509481983 / 2" by simp
  have r: "round_even (18014398509481983 / 2) = 9007199254740992"
    by (simp add: round_even_def)
  have "0 < ?x" by simp
  from nearest53_pos [OF this] show ?thesis
    unfolding l q d r by simp
qed

lemma nearest53_tie_three_quarters:
  "nearest53 (13510798882111487 / 2 ^ 54) = 3 / 4"
proof -
  let ?x = "13510798882111487 / 2 ^ 54 :: real"
  have "(2 :: real) powr of_int (- 1) = 1 / 2" "(2 :: real) powr of_int (- 1 + 1) = 1"
    by (simp_all add: powr_minus_divide)
  then have "2 powr of_int (- 1) \<le> ?x" "?x < 2 powr of_int (- 1 + 1)" by simp_all
  then have l: "\<lfloor>log 2 ?x\<rfloor> = - 1" by (rule floor_log2_eq)
  have q: "(2 :: real) powr of_int (- 1 - 52) = 1 / 2 ^ 53"
    by (simp add: powr_minus_divide)
  have d: "?x / (1 / 2 ^ 53) = 13510798882111487 / 2" by simp
  have r: "round_even (13510798882111487 / 2) = 6755399441055744"
    by (simp add: round_even_def)
  have "0 < ?x" by simp
  from nearest53_pos [OF this] show ?thesis
    unfolding l q d r by simp
qed

text \<open>
  The rounding decides the new size: with \<^verbatim>\<open>Math.random()\<close> giving 0.8333333333333333,
  which is \<open>7505999378950826 / 2 ^ 53\<close>, the product for a file of 3 bytes lies half way
  between two binary64 numbers and is rounded up to 2, so the new size is 2; without
  rounding the floor would be 1.
\<close>

lemma truncate_follows_binary64:
  "(case FileProperties_truncate nearest53 (7505999378950826 / 2 ^ 53)
           \<lparr>path = [''f''], size_fd = 3, checksum = [], verifyChecksum = False\<rparr>
           [[''f''] \<mapsto> File [1, 2, 3]] of
      Inl e \<Rightarrow> False
    | Inr (fileData', fsys') \<Rightarrow> size_fd fileData' = 2) \<and>
   nat \<lfloor>(0.25 + (7505999378950826 / 2 ^ 53) * 0.5) * real 3\<rfloor> = 1"
proof -
  have a: "nearest53 (7505999378950826 / 2 ^ 53 * 0.5) = 7505999378950826 / 2 ^ 54"
    using nearest53_exact_pos [of 7505999378950826 "- 54"] by (simp add: powr_minus_divide)
  have r: "nearest53 (0.25 + 7505999378950826 / 2 ^ 54) = 6004799503160661 / 2 ^ 53"
    using nearest53_exact_pos [of 6004799503160661 "- 53"] by (simp add: powr_minus_divide)
  have p: "6004799503160661 / 2 ^ 53 * real 3 = (18014398509481983 / 2 ^ 53 :: real)" by simp
  have "nat \<lfloor>nearest53 (nearest53 (0.25 + nearest53 (7505999378950826 / 2 ^ 53 * 0.5)) * real 3)\<rfloor> = 2"
    unfolding a r p nearest53_tie by simp
  then show ?thesis
    by (simp add: FileProperties_truncate_def Deno_truncate_def Let_def)
qed

section \<open>The rename of the platform\<close>








section \<open>The size field after a write\<close>

text \<open>
  Claim C2 says that after a successful write the field \<^verbatim>\<open>size\<close> of the target record
  is 0. \<^verbatim>\<open>write\<close> copies the field into a local variable and counts that one down, so
  the field of a one-byte file is still 1 after \<^verbatim>\<open>Zero.write\<close>.
\<close>

theorem write_size_counterexample:
  "(case Zero_write id
           \<lparr>path = [''f''], size_fd = 1, checksum = [], verifyChecksum = False\<rparr>
           \<lparr>statics = \<lparr>Byte_getValues = None, ByteArray_getValues = None\<rparr>,
            crypto = (\<lambda>i. 0), fs = [[''f''] \<mapsto> File [7]]\<rparr> of
      Inl e \<Rightarrow> None
    | Inr (fileData', w') \<Rightarrow> Some (size_fd fileData')) = Some 1"
  by (simp add: Zero_write_def FileWriter_write_File)

text \<open>
  Claim C2 as amended: for every call of \<^verbatim>\<open>write\<close> on a target that is a regular file,
  whatever its size, the write succeeds, the field \<^verbatim>\<open>size\<close> of the record is what it was
  before, and the local counter of the reader has reached 0 when the copy ends.
\<close>

theorem write_keeps_size:
  assumes "fs w (path fileData) = Some (File old)"
  shows "\<exists>fileData' w'. invoke hex c fileData w = Inr (fileData', w') \<and>
           size_fd fileData' = size_fd fileData \<and>
           size_local (fst (Deno_copy (getValues_of c)
              \<lparr>size_local = size_fd fileData, r_fileData = fileData,
               r_crypto = crypto w\<rparr>)) = 0"
  using assms by (simp add: invoke_File Deno_copy_stream)

theorem write_keeps_size_witness:
  "\<exists>fileData' w'.
     invoke id (Byte_call 65)
       \<lparr>path = [''f''], size_fd = 3, checksum = [], verifyChecksum = False\<rparr>
       \<lparr>statics = \<lparr>Byte_getValues = None, ByteArray_getValues = None\<rparr>,
        crypto = (\<lambda>i. 0), fs = [[''f''] \<mapsto> File [1, 2, 3]]\<rparr> = Inr (fileData', w') \<and>
     size_fd fileData' = 3"
  using write_keeps_size [of
       "\<lparr>statics = \<lparr>Byte_getValues = None, ByteArray_getValues = None\<rparr>,
        crypto = (\<lambda>i. 0), fs = [[''f''] \<mapsto> File [1, 2, 3]]\<rparr>"
       "\<lparr>path = [''f''], size_fd = 3, checksum = [], verifyChecksum = False\<rparr>"
       "[1, 2, 3]" id "Byte_call 65"]
  by auto

section \<open>Verification after a write\<close>

text \<open>
  Claim C8: for every call of \<^verbatim>\<open>write\<close> and every file size, 0 included, if
  \<^verbatim>\<open>verifyNext\<close> was called on the target before the write, the write succeeds, the
  digest input accumulated over the chunks is what the pass over the written file
  accumulates, the flag is cleared, and \<^verbatim>\<open>verify\<close> returns no error. The size of the record
  is the size of the file, as \<^verbatim>\<open>init\<close> sets it, or larger.
\<close>

theorem verify_roundtrip:
  assumes "fs w (path fileData) = Some (File old)"
    and "length old \<le> size_fd fileData"
  shows "\<exists>fileData' w' content.
           invoke hex c (FileWriter_verifyNext fileData) w = Inr (fileData', w') \<and>
           fs w' (path fileData') = Some (File content) \<and>
           length content = size_fd fileData \<and>
           checksum fileData' = foldl Sha256_update Sha256_new (Deno_iter content) \<and>
           \<not> verifyChecksum fileData' \<and>
           FileWriter_verify hex fileData' (fs w') = Inr (None, fileData')"
proof -
  let ?fd = "FileWriter_verifyNext fileData"
  have p: "path ?fd = path fileData" "size_fd ?fd = size_fd fileData"
    "verifyChecksum ?fd" "checksum ?fd = []"
    by (simp_all add: FileWriter_verifyNext_def Sha256_new_def)
  from assms(1) p(1) have f: "fs w (path ?fd) = Some (File old)" by simp
  show ?thesis
    using assms(2) p
    by (simp add: invoke_File [OF f] length_written fed_def fold_Deno_iter Sha256_new_def
        verify_File)
qed

theorem verify_roundtrip_witness:
  "\<exists>fileData' w' content.
     invoke id (Byte_call 65)
       (FileWriter_verifyNext \<lparr>path = [''f''], size_fd = 2, checksum = [], verifyChecksum = False\<rparr>)
       \<lparr>statics = \<lparr>Byte_getValues = None, ByteArray_getValues = None\<rparr>,
        crypto = (\<lambda>i. 0), fs = [[''f''] \<mapsto> File [1, 2]]\<rparr> = Inr (fileData', w') \<and>
     fs w' (path fileData') = Some (File content) \<and>
     length content = 2 \<and>
     checksum fileData' = foldl Sha256_update Sha256_new (Deno_iter content) \<and>
     \<not> verifyChecksum fileData' \<and>
     FileWriter_verify id fileData' (fs w') = Inr (None, fileData')"
  using verify_roundtrip [of
       "\<lparr>statics = \<lparr>Byte_getValues = None, ByteArray_getValues = None\<rparr>,
        crypto = (\<lambda>i. 0), fs = [[''f''] \<mapsto> File [1, 2]]\<rparr>"
       "\<lparr>path = [''f''], size_fd = 2, checksum = [], verifyChecksum = False\<rparr>"
       "[1, 2]" id "Byte_call 65"]
  by auto

text \<open>
  Claim C10: \<^verbatim>\<open>verify\<close> leaves the target record as it found it (path, size, flag and
  checksum accumulator; the digest of the file goes into an accumulator of its own), so a
  second \<^verbatim>\<open>verify\<close> against the same record gives the same answer.
\<close>

theorem verify_leaves_record:
  "FileWriter_verify hex fileData fsys = Inr (r, fileData') \<Longrightarrow>
   fileData' = fileData \<and> FileWriter_verify hex fileData' fsys = Inr (r, fileData')"
  by (auto simp: FileWriter_verify_def Let_def split: option.splits node.splits if_splits)

theorem verify_leaves_record_witness:
  "FileWriter_verify id
     \<lparr>path = [''f''], size_fd = 2, checksum = [1, 2], verifyChecksum = False\<rparr>
     [[''f''] \<mapsto> File [1, 2]] =
   Inr (None, \<lparr>path = [''f''], size_fd = 2, checksum = [1, 2], verifyChecksum = False\<rparr>)"
  using verify_leaves_record [of id
     "\<lparr>path = [''f''], size_fd = 2, checksum = [1, 2], verifyChecksum = False\<rparr>"
     "[[''f''] \<mapsto> File [1, 2]]" None
     "\<lparr>path = [''f''], size_fd = 2, checksum = [1, 2], verifyChecksum = False\<rparr>"]
  by (simp add: verify_File)

section \<open>The content of the file after a write\<close>

text \<open>
  Claim C1 says that after \<^verbatim>\<open>ByteArray.write\<close> byte \<open>i\<close> of the file is
  \<^verbatim>\<open>pattern[i mod length(pattern)]\<close>, the index running over the whole file. The closure
  indexes the pattern from the start of every buffer, so with the pattern \<open>[1, 2, 3]\<close> on a
  file of 32769 bytes the byte at 32768, the first of the second chunk, is 1 and not
  \<^verbatim>\<open>pattern[32768 mod 3]\<close>, which is 3.
\<close>

theorem ByteArray_chunk_counterexample:
  "map_option (\<lambda>content. content ! 32768)
     (content_after
        (ByteArray_write id
           \<lparr>path = [''f''], size_fd = 32769, checksum = [], verifyChecksum = False\<rparr>
           [1, 2, 3]
           \<lparr>statics = \<lparr>Byte_getValues = None, ByteArray_getValues = None\<rparr>,
            crypto = (\<lambda>i. 0), fs = [[''f''] \<mapsto> File (replicate 32769 0)]\<rparr>)
        [''f'']) = Some 1 \<and>
   ToUint8 ([1, 2, 3] ! (32768 mod length [1, 2, 3 :: int])) = 3"
proof -
  let ?fd = "\<lparr>path = [''f''], size_fd = 32769, checksum = [], verifyChecksum = False\<rparr>"
  let ?w = "\<lparr>statics = \<lparr>Byte_getValues = None, ByteArray_getValues = None\<rparr>,
            crypto = (\<lambda>i. 0), fs = [[''f''] \<mapsto> File (replicate 32769 0)]\<rparr>"
  have "fs ?w (path ?fd) = Some (File (replicate 32769 0))" by simp
  from ByteArray_write_File [OF this, of id "[1, 2, 3]"] show ?thesis
    by (simp add: nth_append DEFAULT_BUFFER_SIZE_def byteArray_at_def ToUint8_def)
qed

text \<open>
  Claim C1 as amended: for every non-empty pattern and every size, \<^verbatim>\<open>ByteArray.write\<close> on a
  regular file succeeds and byte \<open>i\<close> of the file, for every \<open>i\<close> below the size of the
  record, is \<^verbatim>\<open>pattern[(i mod 32768) mod length(pattern)]\<close> stored as a byte: the pattern
  starts again at every chunk of 32 KiB. When the size is at most 32768 or the length of
  the pattern divides 32768, that is \<^verbatim>\<open>pattern[i mod length(pattern)]\<close>; the pattern
  \<open>[1, 2, 3]\<close> on a file of 7 bytes gives \<open>[1, 2, 3, 1, 2, 3, 1]\<close>.
\<close>

theorem ByteArray_write_content:
  assumes "fs w (path fileData) = Some (File old)" and "byteArray \<noteq> []"
  shows "\<exists>fileData' w'.
     ByteArray_write hex fileData byteArray w = Inr (fileData', w') \<and>
     fs w' (path fileData) =
       Some (File (map (\<lambda>i. ToUint8 (byteArray ! (i mod DEFAULT_BUFFER_SIZE mod length byteArray)))
                     [0..<size_fd fileData] @ drop (size_fd fileData) old)) \<and>
     (size_fd fileData \<le> DEFAULT_BUFFER_SIZE \<or> length byteArray dvd DEFAULT_BUFFER_SIZE \<longrightarrow>
      fs w' (path fileData) =
        Some (File (map (\<lambda>i. ToUint8 (byteArray ! (i mod length byteArray)))
                      [0..<size_fd fileData] @ drop (size_fd fileData) old)))"
proof -
  have a: "byteArray_at byteArray j = ToUint8 (byteArray ! (j mod length byteArray))" for j
    using assms(2) by (simp add: byteArray_at_def)
  have b: "i mod DEFAULT_BUFFER_SIZE mod length byteArray = i mod length byteArray"
    if "size_fd fileData \<le> DEFAULT_BUFFER_SIZE \<or> length byteArray dvd DEFAULT_BUFFER_SIZE"
      and "i < size_fd fileData" for i
    using that by (auto simp: mod_mod_cancel)
  show ?thesis
    using assms(1) b
    by (simp add: ByteArray_write_def FileWriter_write_File written_ByteArray a)
qed

theorem ByteArray_write_content_witness:
  "\<exists>fileData' w'.
     ByteArray_write id
       \<lparr>path = [''f''], size_fd = 7, checksum = [], verifyChecksum = False\<rparr>
       [1, 2, 3]
       \<lparr>statics = \<lparr>Byte_getValues = None, ByteArray_getValues = None\<rparr>,
        crypto = (\<lambda>i. 0), fs = [[''f''] \<mapsto> File [9, 9, 9, 9, 9, 9, 9]]\<rparr> = Inr (fileData', w') \<and>
     fs w' [''f''] = Some (File [1, 2, 3, 1, 2, 3, 1])"
  using ByteArray_write_content [of
       "\<lparr>statics = \<lparr>Byte_getValues = None, ByteArray_getValues = None\<rparr>,
        crypto = (\<lambda>i. 0), fs = [[''f''] \<mapsto> File [9, 9, 9, 9, 9, 9, 9]]\<rparr>"
       "\<lparr>path = [''f''], size_fd = 7, checksum = [], verifyChecksum = False\<rparr>"
       "[9, 9, 9, 9, 9, 9, 9]" "[1, 2, 3]" id]
    upt_7
  by (auto simp: DEFAULT_BUFFER_SIZE_def ToUint8_def)

text \<open>
  Claim C3 says that one call of \<^verbatim>\<open>RandomByte.write\<close> draws one random byte and fills the
  whole file with it. \<^verbatim>\<open>RandomByte.getValues\<close> draws a byte each time it is called, once
  per chunk: on a file of 32769 bytes, with a random source that gives 0 and then 1, the
  first byte of the file is 0 and the byte at 32768 is 1.
\<close>

theorem RandomByte_two_chunks:
  "map_option (\<lambda>content. (content ! 0, content ! 32768))
     (content_after
        (RandomByte_write id
           \<lparr>path = [''f''], size_fd = 32769, checksum = [], verifyChecksum = False\<rparr>
           \<lparr>statics = \<lparr>Byte_getValues = None, ByteArray_getValues = None\<rparr>,
            crypto = (\<lambda>i. word_of_nat i), fs = [[''f''] \<mapsto> File (replicate 32769 0)]\<rparr>)
        [''f'']) = Some (0, 1)"
proof -
  let ?fd = "\<lparr>path = [''f''], size_fd = 32769, checksum = [], verifyChecksum = False\<rparr>"
  let ?w = "\<lparr>statics = \<lparr>Byte_getValues = None, ByteArray_getValues = None\<rparr>,
            crypto = (\<lambda>i. word_of_nat i :: byte), fs = [[''f''] \<mapsto> File (replicate 32769 0)]\<rparr>"
  have f: "fs ?w (path ?fd) = Some (File (replicate 32769 0))" by simp
  have "written RandomByte_cls ?fd ?w = replicate 32768 0 @ [1]"
    by (simp add: written_def stream_RandomByte stream_0 DEFAULT_BUFFER_SIZE_def)
  then show ?thesis
    by (simp add: RandomByte_write_def FileWriter_write_File [OF f] content_after_def nth_append)
qed

text \<open>
  Claim C5 says that \<^verbatim>\<open>ByteArray.write\<close> with an empty pattern fails before a byte is
  written. The source has no check of the pattern: on a file of two bytes the call
  returns normally and both bytes of the file are 0.
\<close>

theorem ByteArray_write_empty_counterexample:
  "content_after
     (ByteArray_write id
        \<lparr>path = [''f''], size_fd = 2, checksum = [], verifyChecksum = False\<rparr>
        []
        \<lparr>statics = \<lparr>Byte_getValues = None, ByteArray_getValues = None\<rparr>,
         crypto = (\<lambda>i. 0), fs = [[''f''] \<mapsto> File [7, 9]]\<rparr>)
     [''f''] = Some [0, 0]"
proof -
  let ?fd = "\<lparr>path = [''f''], size_fd = 2, checksum = [], verifyChecksum = False\<rparr>"
  let ?w = "\<lparr>statics = \<lparr>Byte_getValues = None, ByteArray_getValues = None\<rparr>,
            crypto = (\<lambda>i. 0), fs = [[''f''] \<mapsto> File [7, 9]]\<rparr>"
  have "fs ?w (path ?fd) = Some (File [7, 9])" by simp
  from ByteArray_write_File [OF this, of id "[]"] show ?thesis
    by (simp add: byteArray_at_def map_replicate_const numeral_2_eq_2)
qed

text \<open>
  Claim C5 as amended: for every target that is a regular file, \<^verbatim>\<open>ByteArray.write\<close> with
  an empty pattern raises nothing; it overwrites the first bytes of the file, as many as
  the size of the record, with 0.
\<close>

theorem ByteArray_write_empty:
  assumes "fs w (path fileData) = Some (File old)"
  shows "\<exists>fileData' w'.
     ByteArray_write hex fileData [] w = Inr (fileData', w') \<and>
     fs w' (path fileData) =
       Some (File (replicate (size_fd fileData) 0 @ drop (size_fd fileData) old))"
  using assms
  by (simp add: ByteArray_write_def FileWriter_write_File written_ByteArray byteArray_at_def
      map_replicate_const)

theorem ByteArray_write_empty_witness:
  "\<exists>fileData' w'.
     ByteArray_write id
       \<lparr>path = [''f''], size_fd = 2, checksum = [], verifyChecksum = False\<rparr>
       []
       \<lparr>statics = \<lparr>Byte_getValues = None, ByteArray_getValues = None\<rparr>,
        crypto = (\<lambda>i. 0), fs = [[''f''] \<mapsto> File [7, 9, 5]]\<rparr> = Inr (fileData', w') \<and>
     fs w' [''f''] = Some (File [0, 0, 5])"
  using ByteArray_write_empty [of
       "\<lparr>statics = \<lparr>Byte_getValues = None, ByteArray_getValues = None\<rparr>,
        crypto = (\<lambda>i. 0), fs = [[''f''] \<mapsto> File [7, 9, 5]]\<rparr>"
       "\<lparr>path = [''f''], size_fd = 2, checksum = [], verifyChecksum = False\<rparr>"
       "[7, 9, 5]" id]
  by (auto simp: numeral_2_eq_2)

section \<open>The verification that a write triggers\<close>

text \<open>
  Claim C4 says that a digest mismatch is reported to the caller on every path, the
  verification at the end of a write included. \<^verbatim>\<open>verify\<close> returns the error as a value,
  and \<^verbatim>\<open>write\<close> drops the value of \<^verbatim>\<open>await this.verify(fileData)\<close>. Here the record says
  one byte and the file has two; \<^verbatim>\<open>Zero.write\<close> after \<^verbatim>\<open>verifyNext\<close> returns normally,
  and \<^verbatim>\<open>verify\<close> on the state it leaves returns the error \<^verbatim>\<open>Invalid checksum\<close>.
\<close>

theorem write_discards_mismatch:
  "(case Zero_write id
           (FileWriter_verifyNext
              \<lparr>path = [''f''], size_fd = 1, checksum = [], verifyChecksum = False\<rparr>)
           \<lparr>statics = \<lparr>Byte_getValues = None, ByteArray_getValues = None\<rparr>,
            crypto = (\<lambda>i. 0), fs = [[''f''] \<mapsto> File [7, 9]]\<rparr> of
      Inl e \<Rightarrow> False
    | Inr (fileData', w') \<Rightarrow>
        FileWriter_verify id fileData' (fs w') = Inr (Some ''Invalid checksum'', fileData'))"
proof -
  define fd where "fd = FileWriter_verifyNext
      \<lparr>path = [''f''], size_fd = 1, checksum = [], verifyChecksum = False\<rparr>"
  define w where "w = \<lparr>statics = \<lparr>Byte_getValues = None, ByteArray_getValues = None\<rparr>,
            crypto = (\<lambda>i. 0 :: byte), fs = [[''f''] \<mapsto> File [7, 9]]\<rparr>"
  have v: "verifyChecksum fd" "checksum fd = []" "path fd = [''f'']" "size_fd fd = 1"
    by (simp_all add: fd_def FileWriter_verifyNext_def Sha256_new_def)
  have f: "fs w (path fd) = Some (File [7, 9])"
    by (simp add: v w_def)
  have "case Zero_write id fd w of
      Inl e \<Rightarrow> False
    | Inr (fileData', w') \<Rightarrow>
        FileWriter_verify id fileData' (fs w') = Inr (Some ''Invalid checksum'', fileData')"
    by (simp add: Zero_write_def FileWriter_write_File [OF f] v verify_File fed_def)
  then show ?thesis
    unfolding fd_def w_def .
qed

section \<open>\<^verbatim>\<open>truncate\<close> and \<^verbatim>\<open>rename\<close>\<close>

text \<open>
  Claim C6 says that for a size above 0 and a draw \<open>r\<close> in \<open>[0.25, 0.75)\<close> the new size
  \<open>floor(r * size)\<close> is at least \<open>0.25 * size\<close> and below \<open>0.75 * size\<close>. The floor
  takes the lower bound away: with \<^verbatim>\<open>Math.random()\<close> giving 0 a file of one byte is
  truncated to 0 bytes, and 0 is below 0.25. The rounding takes the strict upper bound
  away: with \<^verbatim>\<open>Math.random()\<close> giving \<open>1 - 2^-53\<close>, the sum \<open>0.25 + u * 0.5\<close> is rounded
  to 0.75, and a file of 4 bytes is truncated to 3 bytes, which is not below 3.
\<close>

theorem truncate_bounds_counterexample:
  "(case FileProperties_truncate nearest53 0
           \<lparr>path = [''f''], size_fd = 1, checksum = [], verifyChecksum = False\<rparr>
           [[''f''] \<mapsto> File [7]] of
      Inl e \<Rightarrow> False
    | Inr (fileData', fsys') \<Rightarrow>
        size_fd fileData' = 0 \<and> \<not> (0.25 * real 1 \<le> real (size_fd fileData'))) \<and>
   (case FileProperties_truncate nearest53 (9007199254740991 / 2 ^ 53)
           \<lparr>path = [''f''], size_fd = 4, checksum = [], verifyChecksum = False\<rparr>
           [[''f''] \<mapsto> File [7, 7, 7, 7]] of
      Inl e \<Rightarrow> False
    | Inr (fileData', fsys') \<Rightarrow>
        size_fd fileData' = 3 \<and> \<not> (real (size_fd fileData') < 0.75 * real 4))"
proof -
  have a: "nearest53 (9007199254740991 / 2 ^ 53 * 0.5) = 9007199254740991 / 2 ^ 54"
    using nearest53_exact_pos [of 9007199254740991 "- 54"] by (simp add: powr_minus_divide)
  have s: "0.25 + 9007199254740991 / 2 ^ 54 = (13510798882111487 / 2 ^ 54 :: real)" by simp
  have three: "nearest53 3 = 3" using nearest53_quarters [of 12] by simp
  have "nat \<lfloor>nearest53 (nearest53 (0.25 + nearest53 (9007199254740991 / 2 ^ 53 * 0.5)) * real 4)\<rfloor> = 3"
    unfolding a s nearest53_tie_three_quarters by (simp add: three)
  then show ?thesis
    by (simp add: FileProperties_truncate_def Deno_truncate_def Let_def nearest53_values)
qed

text \<open>
  Claim C6 as amended: for every target that is a regular file of a size below
  \<open>2 ^ 53 / 3\<close>, every value \<open>u\<close> of \<^verbatim>\<open>Math.random()\<close> with \<open>0 \<le> u < 1\<close> and every
  rounding of binary64 arithmetic, \<^verbatim>\<open>truncate\<close> succeeds; the new size is the floor of the
  rounded value of \<open>(0.25 + u * 0.5) * size\<close>, it is at least \<open>floor(0.25 * size)\<close> and at
  most \<open>0.75 * size\<close>; the size field of the record is the new size and so is the length
  of the file.
\<close>

theorem truncate_bounds:
  assumes "rounding fl" and "0 \<le> u" and "u < 1"
    and "3 * size_fd fileData < 2 ^ 53"
    and "fsys (path fileData) = Some (File old)"
  shows "\<exists>fileData' fsys' content.
     FileProperties_truncate fl u fileData fsys = Inr (fileData', fsys') \<and>
     size_fd fileData' = nat \<lfloor>fl (fl (0.25 + fl (u * 0.5)) * real (size_fd fileData))\<rfloor> \<and>
     size_fd fileData div 4 \<le> size_fd fileData' \<and>
     4 * size_fd fileData' \<le> 3 * size_fd fileData \<and>
     path fileData' = path fileData \<and>
     fsys' (path fileData) = Some (File content) \<and> length content = size_fd fileData'"
  using assms(5) truncate_newSize [OF assms(1-4)]
  by (simp add: FileProperties_truncate_def Deno_truncate_def Let_def)

theorem truncate_bounds_witness:
  "\<exists>fileData' fsys' content.
     FileProperties_truncate nearest53 (1 / 2)
       \<lparr>path = [''f''], size_fd = 4, checksum = [], verifyChecksum = False\<rparr>
       [[''f''] \<mapsto> File [1, 2, 3, 4]] = Inr (fileData', fsys') \<and>
     size_fd fileData' = 2 \<and> fsys' [''f''] = Some (File content) \<and> length content = 2"
  using truncate_bounds [of nearest53 "1 / 2"
       "\<lparr>path = [''f''], size_fd = 4, checksum = [], verifyChecksum = False\<rparr>"
       "[[''f''] \<mapsto> File [1, 2, 3, 4]]" "[1, 2, 3, 4]"]
    rounding_nearest53
  by (auto simp: nearest53_values)




section \<open>A write and the other writes\<close>




end
